theory Spec2Isabelle
  imports Complex_Main
begin

section \<open>Utility helpers\<close>

text \<open>
  JavaScript numbers are modelled as exact reals: the rounding error of IEEE-754 doubles,
  \<open>NaN\<close> and the infinities are outside the model. \<open>Math.round\<close> rounds to the nearest
  integer with ties going up, and \<open>round2 n\<close> is \<open>Math.round(n * 100) / 100\<close>. Because
  doubles round where reals do not, no theorem below rests on an identity of real
  arithmetic: \<open>round2\<close> stands as the code's own expression on both sides of an equation,
  the one fact used about it is that it keeps a non-negative number non-negative, and the
  concrete inputs are whole numbers and halves, on which double arithmetic is exact.
\<close>

definition math_round :: "real \<Rightarrow> real" where
  "math_round x = of_int \<lfloor>x + 1 / 2\<rfloor>"

definition round2 :: "real \<Rightarrow> real" where
  "round2 n = math_round (n * 100) / 100"

text \<open>\<open>xs.slice(-n)\<close>: the last \<open>n\<close> elements, the whole array when it is shorter.\<close>

definition slice_last :: "nat \<Rightarrow> 'a list \<Rightarrow> 'a list" where
  "slice_last n xs = drop (length xs - n) xs"

text \<open>
  A JavaScript \<open>Set\<close> keeps its elements in insertion order; adding an element that is
  already present changes nothing. \<open>new_Set xs\<close> is \<open>Array.from(new Set(xs))\<close>.
\<close>

definition set_add :: "'a list \<Rightarrow> 'a \<Rightarrow> 'a list" where
  "set_add s x = (if x \<in> set s then s else s @ [x])"

definition new_Set :: "'a list \<Rightarrow> 'a list" where
  "new_Set xs = foldl set_add [] xs"

text \<open>Truthiness of a value that is \<open>null\<close> or a string: only a non-empty string is truthy.\<close>

definition truthy :: "string option \<Rightarrow> bool" where
  "truthy v = (case v of None \<Rightarrow> False | Some s \<Rightarrow> s \<noteq> [])"

text \<open>\<open>n || 0\<close> on a number.\<close>

definition or_zero :: "int \<Rightarrow> int" where
  "or_zero n = (if n = 0 then 0 else n)"

subsection \<open>Plain objects\<close>

text \<open>
  A plain object is the list of its own properties in insertion order, with no key twice.
  Reading \<open>obj[k]\<close> finds the own property \<open>k\<close> and otherwise the property that every plain
  object inherits from \<open>Object.prototype\<close>; the inherited ones are functions, or for
  \<open>__proto__\<close> the prototype itself, and so they are all truthy. \<open>prop_truthy obj k\<close> is the
  truthiness of \<open>obj[k]\<close> for an object whose own values are booleans.
\<close>

definition object_prototype_keys :: "string list" where
  "object_prototype_keys =
     [''constructor'', ''__defineGetter__'', ''__defineSetter__'', ''hasOwnProperty'',
      ''__lookupGetter__'', ''__lookupSetter__'', ''isPrototypeOf'', ''propertyIsEnumerable'',
      ''toString'', ''valueOf'', ''__proto__'', ''toLocaleString'']"

definition prop_truthy :: "(string \<times> bool) list \<Rightarrow> string \<Rightarrow> bool" where
  "prop_truthy obj k =
     (case map_of obj k of Some v \<Rightarrow> v | None \<Rightarrow> k \<in> set object_prototype_keys)"

text \<open>
  \<open>{...obj, [k]: v}\<close>: an own property \<open>k\<close> keeps its place and takes the new value, a new
  one goes to the end.
\<close>

fun set_prop :: "string \<Rightarrow> 'v \<Rightarrow> (string \<times> 'v) list \<Rightarrow> (string \<times> 'v) list" where
  "set_prop k v [] = [(k, v)]"
| "set_prop k v (p # ps) = (if fst p = k then (k, v) # ps else p # set_prop k v ps)"

section \<open>The user account\<close>

text \<open>
  The account object of \<open>UserProvider\<close>. Every field is present, as in the initial account
  and in every state the operations return, so the guards \<open>u.transactions || []\<close> and
  \<open>u.loginDates || []\<close> yield the arrays themselves. \<open>username\<close> and \<open>lastLogin\<close> are \<open>null\<close>
  or a string; \<open>readArticles\<close> is a plain object from article ids to booleans.
\<close>

record tx =
  tx_id :: nat
  ts :: string
  amount :: real
  balanceAfter :: real
  source :: string
  label :: "string option"

record investment =
  inv_id :: string
  inv_amount :: real
  symbol :: string

record user =
  username :: "string option"
  balance :: real
  lastLogin :: "string option"
  streak :: int
  loginDates :: "string list"
  readArticles :: "(string \<times> bool) list"
  investments :: "investment list"
  transactions :: "tx list"

text \<open>The defaults \<open>UserProvider\<close> starts from when the local cache is empty.\<close>

definition initial_user :: user where
  "initial_user =
     \<lparr>username = None, balance = 1000, lastLogin = None, streak = 0, loginDates = [],
      readArticles = [], investments = [], transactions = []\<rparr>"

section \<open>Ledger operations\<close>

text \<open>
  Each operation is the updater function the source passes to \<open>setUser\<close>. The readings of
  the clock are arguments: \<open>now\<close> is \<open>Date.now()\<close>, \<open>stamp\<close> is \<open>new Date().toISOString()\<close>,
  \<open>today\<close> is \<open>todayStr()\<close> and \<open>yest\<close> is \<open>yesterdayStr()\<close>. The toast pushed beside
  each update is not part of the account and is left out. In \<open>transact\<close> the caller's
  options arrive as \<open>src\<close> (default \<open>''system''\<close>) and \<open>lbl\<close> (default \<open>null\<close>).
\<close>

definition transact :: "nat \<Rightarrow> string \<Rightarrow> real \<Rightarrow> string \<Rightarrow> string option \<Rightarrow> user \<Rightarrow> user" where
  "transact now stamp amt src lbl u =
     (let newBalance = round2 (max 0 (balance u + amt));
          t = \<lparr>tx_id = now, ts = stamp, amount = round2 amt, balanceAfter = newBalance,
               source = src, label = lbl\<rparr>
      in u\<lparr>balance := newBalance,
           transactions := slice_last 200 (transactions u @ [t])\<rparr>)"

definition login :: "string \<Rightarrow> string \<Rightarrow> string \<Rightarrow> user \<Rightarrow> user" where
  "login today yest name u =
     (let was = lastLogin u;
          (newStreak, newBalance) =
            (if was = Some today then (streak u, balance u)
             else if was = Some yest then (or_zero (streak u) + 1, round2 (balance u + 10))
             else (1, if truthy was then max 0 (round2 (balance u - 20)) else balance u));
          dates = set_add (new_Set (loginDates u)) today
      in u\<lparr>username := Some name, balance := newBalance, lastLogin := Some today,
           streak := newStreak, loginDates := slice_last 30 dates\<rparr>)"

definition markArticleRead :: "string \<Rightarrow> real \<Rightarrow> user \<Rightarrow> user" where
  "markArticleRead a reward u =
     (if prop_truthy (readArticles u) a then u
      else u\<lparr>readArticles := set_prop a True (readArticles u),
             balance := round2 (balance u + reward)\<rparr>)"

definition invest :: "investment \<Rightarrow> user \<Rightarrow> user" where
  "invest position u = u\<lparr>investments := investments u @ [position]\<rparr>"

definition realizeInvestment :: "string \<Rightarrow> real \<Rightarrow> user \<Rightarrow> user" where
  "realizeInvestment i multiplier u =
     (case find (\<lambda>x. inv_id x = i) (investments u) of
        None \<Rightarrow> u
      | Some position \<Rightarrow>
          (let returned = round2 (inv_amount position * multiplier);
               nextBalance = round2 (balance u + returned)
           in u\<lparr>balance := nextBalance,
                investments := filter (\<lambda>x. inv_id x \<noteq> i) (investments u)\<rparr>))"

text \<open>Accounts used as concrete inputs below.\<close>

definition returning_user :: user where
  "returning_user =
     initial_user\<lparr>username := Some ''neo'', lastLogin := Some ''2024-01-10'', streak := 5,
       loginDates := [''2024-01-09'', ''2024-01-10'']\<rparr>"

definition stale_user :: user where
  "stale_user = initial_user\<lparr>username := Some ''neo'', lastLogin := Some ''2024-01-10''\<rparr>"

definition invested_user :: user where
  "invested_user =
     invest \<lparr>inv_id = ''i2'', inv_amount = 300, symbol = ''INFY''\<rparr>
       (invest \<lparr>inv_id = ''i1'', inv_amount = 1000, symbol = ''ACME''\<rparr> initial_user)"

definition full_user :: user where
  "full_user =
     initial_user\<lparr>transactions :=
       replicate 200 \<lparr>tx_id = 0, ts = ''t0'', amount = 0, balanceAfter = 1000,
         source = ''system'', label = None\<rparr>\<rparr>"

subsection \<open>Sequences of transactions\<close>

text \<open>
  One call of \<open>transact\<close> with the clock readings it sees; \<open>transact_all\<close> runs a
  sequence of calls, each on the state the previous one left.
\<close>

record transact_call =
  at_now :: nat
  at_stamp :: string
  by_amount :: real
  by_source :: string
  by_label :: "string option"

definition apply_call :: "user \<Rightarrow> transact_call \<Rightarrow> user" where
  "apply_call u c = transact (at_now c) (at_stamp c) (by_amount c) (by_source c) (by_label c) u"

definition transact_all :: "user \<Rightarrow> transact_call list \<Rightarrow> user" where
  "transact_all u cs = foldl apply_call u cs"

text \<open>
  The two reference values for a sequence of calls. \<open>clamped_sums\<close> is the specification's
  iteration of \<open>b \<mapsto> round2 (max 0 (b + a))\<close> over the amounts; \<open>full_log\<close> is the complete
  log, the entry \<open>transact\<close> builds for each call, in call order and never truncated.
\<close>

definition clamped_sums :: "real \<Rightarrow> real list \<Rightarrow> real" where
  "clamped_sums b amts = foldl (\<lambda>b a. round2 (max 0 (b + a))) b amts"

fun full_log :: "real \<Rightarrow> transact_call list \<Rightarrow> tx list" where
  "full_log b [] = []"
| "full_log b (c # cs) =
     (let nb = round2 (max 0 (b + by_amount c))
      in \<lparr>tx_id = at_now c, ts = at_stamp c, amount = round2 (by_amount c),
           balanceAfter = nb, source = by_source c, label = by_label c\<rparr> # full_log nb cs)"

definition spec_calls :: "transact_call list" where
  "spec_calls =
     [\<lparr>at_now = 1, at_stamp = ''t1'', by_amount = - 50, by_source = ''system'',
       by_label = Some ''food''\<rparr>,
      \<lparr>at_now = 2, at_stamp = ''t2'', by_amount = 500, by_source = ''system'',
       by_label = Some ''freelance''\<rparr>,
      \<lparr>at_now = 3, at_stamp = ''t3'', by_amount = - 20, by_source = ''system'',
       by_label = Some ''tea''\<rparr>]"

section \<open>The habit tracker\<close>

text \<open>
  \<open>HabitTracker\<close> holds the task list and the streak. \<open>toggleTask\<close> replaces the task list;
  the effect registered on the task list then runs with the new tasks and the current streak.
  \<open>today\<close> is the date string computed by the render, \<open>yest\<close> the reading of
  \<open>getYesterday()\<close>.
\<close>

record task =
  task_id :: nat
  task_text :: string
  task_done :: bool

record habit_streak =
  current :: int
  best :: int
  lastDate :: "string option"
  history :: "string list"

record habit_state =
  tasks :: "task list"
  hstreak :: habit_streak

definition initial_habit :: habit_state where
  "initial_habit =
     \<lparr>tasks = [\<lparr>task_id = 1, task_text = ''Read 1 Article'', task_done = False\<rparr>,
               \<lparr>task_id = 2, task_text = ''Play a Game'', task_done = False\<rparr>,
               \<lparr>task_id = 3, task_text = ''Log In Today'', task_done = False\<rparr>],
      hstreak = \<lparr>current = 0, best = 0, lastDate = None, history = []\<rparr>\<rparr>"

definition toggleTask :: "nat \<Rightarrow> habit_state \<Rightarrow> habit_state" where
  "toggleTask i st =
     st\<lparr>tasks :=
          map (\<lambda>t. if task_id t = i then t\<lparr>task_done := \<not> task_done t\<rparr> else t) (tasks st)\<rparr>"

definition allDone :: "habit_state \<Rightarrow> bool" where
  "allDone st = list_all task_done (tasks st)"

text \<open>The condition under which the effect advances the streak.\<close>

definition fires :: "string \<Rightarrow> habit_state \<Rightarrow> bool" where
  "fires today st = (allDone st \<and> lastDate (hstreak st) \<noteq> Some today)"

definition streak_effect :: "string \<Rightarrow> string \<Rightarrow> habit_state \<Rightarrow> habit_state" where
  "streak_effect today yest st =
     (if fires today st then
        (let newCurrent =
               (if lastDate (hstreak st) = Some yest then current (hstreak st) + 1 else 1);
             newBest = max newCurrent (best (hstreak st))
         in st\<lparr>hstreak := \<lparr>current = newCurrent, best = newBest, lastDate = Some today,
                            history = history (hstreak st) @ [today]\<rparr>\<rparr>)
      else st)"

text \<open>One click: the toggle, then the effect.\<close>

definition toggle_step :: "string \<Rightarrow> string \<Rightarrow> habit_state \<Rightarrow> nat \<Rightarrow> habit_state" where
  "toggle_step today yest st i = streak_effect today yest (toggleTask i st)"

text \<open>How often the effect advances the streak during a sequence of clicks on one day.\<close>

fun fire_count :: "string \<Rightarrow> string \<Rightarrow> habit_state \<Rightarrow> nat list \<Rightarrow> nat" where
  "fire_count today yest st [] = 0"
| "fire_count today yest st (i # ids) =
     (if fires today (toggleTask i st) then 1 else 0)
       + fire_count today yest (toggle_step today yest st i) ids"

section \<open>Facts about the helpers\<close>

lemma round2_nonneg: "0 \<le> x \<Longrightarrow> 0 \<le> round2 x"
  by (simp add: round2_def math_round_def)



lemma a1_not_read: "\<not> prop_truthy [] ''a1''"
  by (simp add: prop_truthy_def object_prototype_keys_def)

lemma slice_last_short: "length xs \<le> n \<Longrightarrow> slice_last n xs = xs"
  by (simp add: slice_last_def)

lemma length_slice_last: "length (slice_last n xs) = min n (length xs)"
  by (simp add: slice_last_def)

lemma last_slice_last: "0 < n \<Longrightarrow> last (slice_last n (xs @ [x])) = x"
  by (simp add: slice_last_def)

text \<open>Truncating before appending loses nothing that truncating afterwards keeps.\<close>

lemma slice_last_absorb: "slice_last n (slice_last n xs @ ys) = slice_last n (xs @ ys)"
proof (cases "length xs \<le> n")
  case True
  then show ?thesis by (simp add: slice_last_def)
next
  case False
  then have k: "length xs - n + n = length xs"
    and j: "length ys + (length xs - n) = length xs + length ys - n"
    by simp_all
  show ?thesis
    using False by (simp add: slice_last_def k j)
qed

lemma foldl_set_add_distinct:
  "distinct (acc @ xs) \<Longrightarrow> foldl set_add acc xs = acc @ xs"
  by (induction xs arbitrary: acc) (simp_all add: set_add_def)

lemma new_Set_distinct: "distinct xs \<Longrightarrow> new_Set xs = xs"
  using foldl_set_add_distinct [of "[]" xs] by (simp add: new_Set_def)

lemma foldl_set_add_shape:
  "distinct acc \<Longrightarrow>
     distinct (foldl set_add acc xs)
     \<and> set (foldl set_add acc xs) = set acc \<union> set xs
     \<and> length (foldl set_add acc xs) \<le> length acc + length xs"
proof (induction xs arbitrary: acc)
  case Nil
  then show ?case by simp
next
  case (Cons x xs)
  have d: "distinct (set_add acc x)"
    using Cons.prems by (simp add: set_add_def)
  have "length (set_add acc x) \<le> Suc (length acc)" "set (set_add acc x) = insert x (set acc)"
    by (auto simp: set_add_def)
  then show ?case
    using Cons.IH [OF d] by auto
qed

lemma new_Set_shape:
  "distinct (new_Set xs) \<and> set (new_Set xs) = set xs \<and> length (new_Set xs) \<le> length xs"
  using foldl_set_add_shape [of "[]" xs] by (simp add: new_Set_def)

text \<open>
  What every login leaves behind, from an account with at most 30 login dates (the initial
  account has none): the last login is today, and the login dates are at most 30 distinct
  dates with today among them.
\<close>

lemma login_dates_shape:
  assumes "length (loginDates u) \<le> 30"
  shows "lastLogin (login today yest name u) = Some today
    \<and> today \<in> set (loginDates (login today yest name u))
    \<and> distinct (loginDates (login today yest name u))
    \<and> length (loginDates (login today yest name u)) \<le> 30"
proof -
  let ?s = "new_Set (loginDates u)"
  have s: "distinct ?s" "length ?s \<le> 30"
    using new_Set_shape [of "loginDates u"] assms by simp_all
  have dates: "loginDates (login today yest name u) = slice_last 30 (set_add ?s today)"
    by (simp add: login_def Let_def split: prod.splits)
  have "today \<in> set (slice_last 30 (set_add ?s today))"
  proof (cases "today \<in> set ?s")
    case True
    then show ?thesis using s(2) by (simp add: set_add_def slice_last_short)
  next
    case False
    have "slice_last 30 (?s @ [today]) \<noteq> []"
      by (simp add: slice_last_def)
    then have "last (slice_last 30 (?s @ [today])) \<in> set (slice_last 30 (?s @ [today]))"
      by (rule last_in_set)
    then show ?thesis using False by (simp add: set_add_def last_slice_last)
  qed
  moreover have "distinct (slice_last 30 (set_add ?s today))"
    using s(1) by (simp add: slice_last_def set_add_def)
  moreover have "length (slice_last 30 (set_add ?s today)) \<le> 30"
    by (simp add: length_slice_last)
  moreover have "lastLogin (login today yest name u) = Some today"
    by (simp add: login_def Let_def split: prod.splits)
  ultimately show ?thesis by (simp add: dates)
qed

lemma find_inv_None: "find (\<lambda>x. inv_id x = i) xs = None \<longleftrightarrow> i \<notin> inv_id ` set xs"
  by (auto simp: find_None_iff)

lemma find_inv_Some: "find (\<lambda>x. inv_id x = i) xs = Some p \<Longrightarrow> p \<in> set xs \<and> inv_id p = i"
  by (auto simp: find_Some_iff)

subsection \<open>Sequences of transactions\<close>

lemma length_full_log: "length (full_log b cs) = length cs"
  by (induction cs arbitrary: b) (simp_all add: Let_def)

lemma balance_apply_call: "balance (apply_call u c) = round2 (max 0 (balance u + by_amount c))"
  by (simp add: apply_call_def transact_def Let_def)

lemma transactions_apply_call:
  "transactions (apply_call u c) = slice_last 200 (transactions u @ full_log (balance u) [c])"
  by (simp add: apply_call_def transact_def Let_def)

lemma balance_transact_all:
  "balance (transact_all u cs) = clamped_sums (balance u) (map by_amount cs)"
  unfolding transact_all_def clamped_sums_def
  by (induction cs arbitrary: u) (simp_all add: balance_apply_call)

lemma full_log_Cons:
  "full_log b (c # cs) = full_log b [c] @ full_log (round2 (max 0 (b + by_amount c))) cs"
  by (simp add: Let_def)

lemma log_transact_all:
  "slice_last 200 (transactions (transact_all u cs)) =
     slice_last 200 (transactions u @ full_log (balance u) cs)"
  unfolding transact_all_def
proof (induction cs arbitrary: u)
  case Nil
  show ?case by simp
next
  case (Cons c cs)
  have "slice_last 200 (transactions (foldl apply_call u (c # cs))) =
        slice_last 200 (transactions (apply_call u c) @ full_log (balance (apply_call u c)) cs)"
    using Cons.IH [of "apply_call u c"] by simp
  also have "\<dots> = slice_last 200 ((transactions u @ full_log (balance u) [c])
                @ full_log (balance (apply_call u c)) cs)"
    unfolding transactions_apply_call by (rule slice_last_absorb)
  also have "\<dots> = slice_last 200 (transactions u @ full_log (balance u) (c # cs))"
    unfolding full_log_Cons [of "balance u" c cs] balance_apply_call by simp
  finally show ?case .
qed

lemma length_transact_all:
  "length (transactions u) \<le> 200 \<Longrightarrow> length (transactions (transact_all u cs)) \<le> 200"
  unfolding transact_all_def
proof (induction cs arbitrary: u)
  case Nil
  then show ?case by simp
next
  case (Cons c cs)
  have "length (transactions (apply_call u c)) \<le> 200"
    by (simp add: transactions_apply_call length_slice_last)
  then show ?case using Cons.IH [of "apply_call u c"] by simp
qed

subsection \<open>The habit tracker\<close>

lemma hstreak_toggleTask: "hstreak (toggleTask i st) = hstreak st"
  by (simp add: toggleTask_def)

lemma toggle_step_done_today:
  "lastDate (hstreak st) = Some today \<Longrightarrow> toggle_step today yest st i = toggleTask i st"
  by (simp add: toggle_step_def streak_effect_def fires_def hstreak_toggleTask)

lemma toggle_step_lastDate:
  "fires today (toggleTask i st) \<Longrightarrow>
     lastDate (hstreak (toggle_step today yest st i)) = Some today"
  by (simp add: toggle_step_def streak_effect_def Let_def)

lemma toggles_after_done:
  "lastDate (hstreak st) = Some today \<Longrightarrow>
     hstreak (foldl (toggle_step today yest) st ids) = hstreak st"
proof (induction ids arbitrary: st)
  case Nil
  show ?case by simp
next
  case (Cons i ids)
  have "hstreak (toggle_step today yest st i) = hstreak st"
    using Cons.prems by (simp add: toggle_step_done_today hstreak_toggleTask)
  then show ?case
    using Cons.IH [of "toggle_step today yest st i"] Cons.prems by simp
qed

lemma fire_count_bound:
  "fire_count today yest st ids \<le> (if lastDate (hstreak st) = Some today then 0 else 1)"
proof (induction ids arbitrary: st)
  case Nil
  show ?case by simp
next
  case (Cons i ids)
  show ?case
  proof (cases "fires today (toggleTask i st)")
    case True
    then have "lastDate (hstreak (toggle_step today yest st i)) = Some today"
      by (rule toggle_step_lastDate)
    then have "fire_count today yest (toggle_step today yest st i) ids = 0"
      using Cons.IH [of "toggle_step today yest st i"] by simp
    moreover from True have "lastDate (hstreak st) \<noteq> Some today"
      by (simp add: fires_def hstreak_toggleTask)
    ultimately show ?thesis using True by simp
  next
    case False
    then have same: "toggle_step today yest st i = toggleTask i st"
      by (simp add: toggle_step_def streak_effect_def)
    show ?thesis
      using False Cons.IH [of "toggleTask i st"] by (simp add: same hstreak_toggleTask)
  qed
qed

section \<open>The claims\<close>

subsection \<open>C1: balance changes and the transaction log\<close>

text \<open>
  C1, as the code has it. Only \<open>transact\<close> writes the log: its result holds the last 200
  entries of the input list with one new entry appended (the input list with that entry
  appended while the input has fewer than 200 entries), and the new entry, the last of the
  list, carries the resulting balance as \<open>balanceAfter\<close>. \<open>login\<close>, \<open>markArticleRead\<close> and
  \<open>realizeInvestment\<close> leave the transactions list as it is, whatever they do to the balance.
\<close>

theorem transact_appends_entry:
  "transactions (transact now stamp amt src lbl u) =
     slice_last 200 (transactions u @
       [\<lparr>tx_id = now, ts = stamp, amount = round2 amt,
         balanceAfter = balance (transact now stamp amt src lbl u), source = src, label = lbl\<rparr>])
   \<and> (length (transactions u) < 200 \<longrightarrow>
        transactions (transact now stamp amt src lbl u) =
          transactions u @
            [\<lparr>tx_id = now, ts = stamp, amount = round2 amt,
              balanceAfter = balance (transact now stamp amt src lbl u), source = src,
              label = lbl\<rparr>])
   \<and> balanceAfter (last (transactions (transact now stamp amt src lbl u))) =
        balance (transact now stamp amt src lbl u)
   \<and> transactions (login today yest name u) = transactions u
   \<and> transactions (markArticleRead a r u) = transactions u
   \<and> transactions (realizeInvestment i m u) = transactions u"
  by (simp add: transact_def login_def markArticleRead_def realizeInvestment_def Let_def
      slice_last_short last_slice_last split: option.splits prod.splits)

theorem transact_appends_entry_witness:
  "length (transactions initial_user) < 200
   \<and> transactions (transact 1 ''t1'' (- 50) ''system'' (Some ''food'') initial_user) =
       [\<lparr>tx_id = 1, ts = ''t1'', amount = - 50, balanceAfter = 950, source = ''system'',
         label = Some ''food''\<rparr>]
   \<and> balance (transact 1 ''t1'' (- 50) ''system'' (Some ''food'') initial_user) = 950"
  using transact_appends_entry [of 1 "''t1''" "- 50" "''system''" "Some ''food''" initial_user]
  by (simp add: initial_user_def transact_def Let_def round2_def math_round_def)

text \<open>
  C1 as stated fails. Reading an article moves the balance of the initial account from 1000
  to 1050 and the log stays empty; a login on the day after the last one moves the balance to
  1010 and the log stays empty; and a \<open>transact\<close> on an account that already holds 200
  entries returns 200 entries, not 201.
\<close>

theorem balance_change_without_entry:
  "balance initial_user = 1000
   \<and> balance (markArticleRead ''a1'' 50 initial_user) = 1050
   \<and> transactions (markArticleRead ''a1'' 50 initial_user) = []
   \<and> balance returning_user = 1000
   \<and> balance (login ''2024-01-11'' ''2024-01-10'' ''neo'' returning_user) = 1010
   \<and> transactions (login ''2024-01-11'' ''2024-01-10'' ''neo'' returning_user) = []
   \<and> length (transactions full_user) = 200
   \<and> length (transactions (transact 1 ''t1'' (- 50) ''system'' None full_user)) = 200"
  by (simp add: a1_not_read markArticleRead_def login_def transact_def initial_user_def returning_user_def
      full_user_def Let_def slice_last_def round2_def math_round_def)

subsection \<open>C2: a sequence of transactions\<close>

text \<open>
  C2. Starting from an account with an empty transactions list, after the calls \<open>cs\<close> the
  balance is the result of iterating \<open>b \<mapsto> round2 (max 0 (b + a))\<close> over the amounts, the
  transactions list has \<open>min (length cs) 200\<close> entries, and it is the last 200 entries of the
  complete log: the oldest entries are the ones dropped.
\<close>

theorem transact_sequence:
  assumes "transactions u = []"
  shows "balance (transact_all u cs) = clamped_sums (balance u) (map by_amount cs)
         \<and> length (transactions (transact_all u cs)) = min (length cs) 200
         \<and> transactions (transact_all u cs) = slice_last 200 (full_log (balance u) cs)"
proof -
  have "length (transactions (transact_all u cs)) \<le> 200"
    using assms by (simp add: length_transact_all)
  then have "transactions (transact_all u cs) =
      slice_last 200 (transactions (transact_all u cs))"
    by (simp add: slice_last_short)
  also have "\<dots> = slice_last 200 (full_log (balance u) cs)"
    using assms by (simp add: log_transact_all)
  finally have log:
    "transactions (transact_all u cs) = slice_last 200 (full_log (balance u) cs)" .
  then have "length (transactions (transact_all u cs)) = min (length cs) 200"
    by (simp add: length_slice_last length_full_log min.commute)
  with log show ?thesis by (simp add: balance_transact_all)
qed

text \<open>
  The end-to-end example: from 1000, the calls \<open>-50\<close>, \<open>+500\<close>, \<open>-20\<close> leave 1430 and three
  entries; 201 equal calls leave 200 entries.
\<close>

theorem transact_sequence_witness:
  "transactions initial_user = []
   \<and> balance (transact_all initial_user spec_calls) = 1430
   \<and> length (transactions (transact_all initial_user spec_calls)) = 3
   \<and> map balanceAfter (transactions (transact_all initial_user spec_calls)) = [950, 1450, 1430]
   \<and> length (transactions (transact_all initial_user (replicate 201 (hd spec_calls)))) = 200"
proof -
  have e: "transactions initial_user = []"
    by (simp add: initial_user_def)
  have three: "balance (transact_all initial_user spec_calls) = 1430
      \<and> length (transactions (transact_all initial_user spec_calls)) = 3
      \<and> map balanceAfter (transactions (transact_all initial_user spec_calls)) =
          [950, 1450, 1430]"
    using transact_sequence [OF e, of spec_calls]
    by (simp add: initial_user_def spec_calls_def clamped_sums_def slice_last_def Let_def
        round2_def math_round_def)
  have many: "length (transactions (transact_all initial_user (replicate 201 (hd spec_calls))))
      = 200"
    using transact_sequence [OF e, of "replicate 201 (hd spec_calls)", THEN conjunct2,
        THEN conjunct1]
    by simp
  from e three many show ?thesis by simp
qed

subsection \<open>C3: the balance stays non-negative\<close>

text \<open>
  C3, as the code has it. \<open>transact\<close> clamps, so its result is never below zero, for any
  amount and any state. From a state with a non-negative balance, \<open>login\<close> keeps the balance
  non-negative, \<open>markArticleRead\<close> does so for every non-negative reward, and
  \<open>realizeInvestment\<close> does so for every non-negative multiplier when no open position has
  a negative amount.
\<close>

theorem balance_nonneg:
  "0 \<le> balance (transact now stamp amt src lbl u)
   \<and> (0 \<le> balance u \<longrightarrow> 0 \<le> balance (login today yest name u))
   \<and> (0 \<le> balance u \<and> 0 \<le> r \<longrightarrow> 0 \<le> balance (markArticleRead a r u))
   \<and> (0 \<le> balance u \<and> 0 \<le> m \<and> (\<forall>x\<in>set (investments u). 0 \<le> inv_amount x) \<longrightarrow>
        0 \<le> balance (realizeInvestment i m u))"
proof -
  have t: "0 \<le> balance (transact now stamp amt src lbl u)"
    by (simp add: transact_def Let_def round2_nonneg)
  have l: "0 \<le> balance u \<Longrightarrow> 0 \<le> balance (login today yest name u)"
    by (simp add: login_def Let_def round2_nonneg)
  have a: "0 \<le> balance u \<Longrightarrow> 0 \<le> r \<Longrightarrow> 0 \<le> balance (markArticleRead a r u)"
    by (simp add: markArticleRead_def round2_nonneg)
  have r: "0 \<le> balance (realizeInvestment i m u)"
    if "0 \<le> balance u" "0 \<le> m" "\<forall>x\<in>set (investments u). 0 \<le> inv_amount x"
  proof (cases "find (\<lambda>x. inv_id x = i) (investments u)")
    case None
    then show ?thesis using that by (simp add: realizeInvestment_def)
  next
    case (Some p)
    then have "0 \<le> inv_amount p" using that(3) find_inv_Some by blast
    then have "0 \<le> round2 (inv_amount p * m)"
      using that(2) by (simp add: round2_nonneg)
    then show ?thesis
      using Some that(1) by (simp add: realizeInvestment_def Let_def round2_nonneg)
  qed
  from t l a r show ?thesis by blast
qed

theorem balance_nonneg_witness:
  "0 \<le> balance initial_user
   \<and> balance (transact 1 ''t1'' (- 5000) ''stock'' None initial_user) = 0
   \<and> 0 \<le> balance (markArticleRead ''a1'' 50 initial_user)
   \<and> balance (returning_user\<lparr>balance := 5\<rparr>) = 5
   \<and> balance (login ''2024-01-20'' ''2024-01-19'' ''neo'' (returning_user\<lparr>balance := 5\<rparr>)) = 0
   \<and> 0 \<le> balance invested_user
   \<and> map inv_amount (investments invested_user) = [1000, 300]
   \<and> 0 \<le> balance (realizeInvestment ''i1'' (1 / 2) invested_user)"
  using balance_nonneg [where u = initial_user and now = 1 and stamp = "''t1''"
      and amt = "- 5000" and src = "''stock''" and lbl = None and r = 50 and a = "''a1''"]
    balance_nonneg [where u = "returning_user\<lparr>balance := 5\<rparr>" and today = "''2024-01-20''"
      and yest = "''2024-01-19''" and name = "''neo''"]
    balance_nonneg [where u = invested_user and m = "1 / 2" and i = "''i1''"]
  by (simp add: a1_not_read initial_user_def returning_user_def invested_user_def invest_def transact_def
      login_def truthy_def Let_def round2_def math_round_def)

text \<open>
  C3 as stated fails: neither \<open>markArticleRead\<close> nor \<open>realizeInvestment\<close> clamps. A reward
  of \<open>-5000\<close> takes the initial balance of 1000 to \<open>-4000\<close>, and a multiplier of \<open>-3\<close> on a
  position of 1000 takes it to \<open>-2000\<close>.
\<close>

theorem balance_below_zero:
  "balance initial_user = 1000
   \<and> balance (markArticleRead ''a1'' (- 5000) initial_user) = - 4000
   \<and> balance invested_user = 1000
   \<and> balance (realizeInvestment ''i1'' (- 3) invested_user) = - 2000"
  by (simp add: a1_not_read markArticleRead_def realizeInvestment_def invest_def invested_user_def
      initial_user_def Let_def round2_def math_round_def)

subsection \<open>C4: an article pays once\<close>



text \<open>
  C4 as stated fails for an id that names an inherited property. \<open>constructor\<close> is not in
  the \<open>readArticles\<close> of the initial account, yet \<open>readArticles[''constructor'']\<close> reads the
  inherited function: the call returns the account as it is and the balance stays 1000,
  where the claim has it rise by the reward of 50.
\<close>

theorem markArticleRead_inherited_key:
  "map_of (readArticles initial_user) ''constructor'' = None
   \<and> balance initial_user = 1000
   \<and> markArticleRead ''constructor'' 50 initial_user = initial_user
   \<and> balance (markArticleRead ''constructor'' 50 initial_user) = 1000"
  by (simp add: markArticleRead_def initial_user_def prop_truthy_def object_prototype_keys_def)

subsection \<open>C5: logins on days D, D+1 and D+3\<close>

text \<open>
  C5, as the code has it. \<open>d0\<close>, \<open>d1\<close> and \<open>d3\<close> are the date strings of the days D, D+1 and
  D+3, so \<open>yesterdayStr()\<close> reads \<open>y0\<close> (the day before D) at the first call, \<open>d0\<close> at the
  second and \<open>y3\<close> (the day D+2) at the third; the strings of different days differ and
  none is empty. For every account whose last login is neither D nor the day before D, the
  three logins give the streaks 1, 2, 1; the D+1 call sets the balance to
  \<open>round2 (balance + 10)\<close> and the D+3 call sets it to \<open>max 0 (round2 (balance - 20))\<close>,
  which is not below zero.
\<close>

theorem login_streak_sequence:
  assumes "lastLogin u \<noteq> Some d0" and "lastLogin u \<noteq> Some y0"
    and "d1 \<noteq> d0" and "d1 \<noteq> []" and "d3 \<noteq> d1" and "y3 \<noteq> d1"
  shows "streak (login d0 y0 n0 u) = 1
    \<and> streak (login d1 d0 n1 (login d0 y0 n0 u)) = 2
    \<and> streak (login d3 y3 n3 (login d1 d0 n1 (login d0 y0 n0 u))) = 1
    \<and> balance (login d1 d0 n1 (login d0 y0 n0 u)) = round2 (balance (login d0 y0 n0 u) + 10)
    \<and> balance (login d3 y3 n3 (login d1 d0 n1 (login d0 y0 n0 u))) =
        max 0 (round2 (balance (login d1 d0 n1 (login d0 y0 n0 u)) - 20))
    \<and> 0 \<le> balance (login d3 y3 n3 (login d1 d0 n1 (login d0 y0 n0 u)))"
proof -
  let ?u1 = "login d0 y0 n0 u"
  let ?u2 = "login d1 d0 n1 ?u1"
  have u1: "streak ?u1 = 1" "lastLogin ?u1 = Some d0"
    using assms(1,2) by (simp_all add: login_def Let_def)
  have u2: "streak ?u2 = 2" "lastLogin ?u2 = Some d1" "balance ?u2 = round2 (balance ?u1 + 10)"
    using u1 assms(3) by (simp_all add: login_def [of d1] Let_def or_zero_def)
  have u3: "streak (login d3 y3 n3 ?u2) = 1"
    "balance (login d3 y3 n3 ?u2) = max 0 (round2 (balance ?u2 - 20))"
    using u2(2) assms(4,5,6) by (simp_all add: login_def [of d3] Let_def truthy_def)
  from u1 u2 u3 show ?thesis by simp
qed

theorem login_streak_sequence_witness:
  "streak (login ''2024-01-20'' ''2024-01-19'' ''neo'' returning_user) = 1
   \<and> balance (login ''2024-01-20'' ''2024-01-19'' ''neo'' returning_user) = 980
   \<and> streak (login ''2024-01-21'' ''2024-01-20'' ''neo''
        (login ''2024-01-20'' ''2024-01-19'' ''neo'' returning_user)) = 2
   \<and> balance (login ''2024-01-21'' ''2024-01-20'' ''neo''
        (login ''2024-01-20'' ''2024-01-19'' ''neo'' returning_user)) = 990
   \<and> streak (login ''2024-01-23'' ''2024-01-22'' ''neo''
        (login ''2024-01-21'' ''2024-01-20'' ''neo''
          (login ''2024-01-20'' ''2024-01-19'' ''neo'' returning_user))) = 1
   \<and> balance (login ''2024-01-23'' ''2024-01-22'' ''neo''
        (login ''2024-01-21'' ''2024-01-20'' ''neo''
          (login ''2024-01-20'' ''2024-01-19'' ''neo'' returning_user))) = 970"
proof -
  have h: "lastLogin returning_user \<noteq> Some ''2024-01-20''"
    "lastLogin returning_user \<noteq> Some ''2024-01-19''"
    "''2024-01-21'' \<noteq> ''2024-01-20''" "''2024-01-21'' \<noteq> []"
    "''2024-01-23'' \<noteq> ''2024-01-21''" "''2024-01-22'' \<noteq> ''2024-01-21''"
    by (simp_all add: returning_user_def initial_user_def)
  have b: "balance (login ''2024-01-20'' ''2024-01-19'' ''neo'' returning_user) = 980"
    by (simp add: login_def returning_user_def initial_user_def Let_def truthy_def
        round2_def math_round_def)
  show ?thesis
    using login_streak_sequence [OF h, of "''neo''" "''neo''" "''neo''"] b
    by (simp add: round2_def math_round_def)
qed

text \<open>
  C5 as stated fails for an account whose previous login was the day before D: the streak
  goes on instead of starting again at 1. With the last login on 2024-01-10 and a streak of
  5, the logins on 2024-01-11, 2024-01-12 and 2024-01-14 give the streaks 6, 7, 1.
\<close>

theorem login_streak_continues:
  "lastLogin returning_user = Some ''2024-01-10''
   \<and> streak returning_user = 5
   \<and> streak (login ''2024-01-11'' ''2024-01-10'' ''neo'' returning_user) = 6
   \<and> streak (login ''2024-01-12'' ''2024-01-11'' ''neo''
        (login ''2024-01-11'' ''2024-01-10'' ''neo'' returning_user)) = 7
   \<and> streak (login ''2024-01-14'' ''2024-01-13'' ''neo''
        (login ''2024-01-12'' ''2024-01-11'' ''neo''
          (login ''2024-01-11'' ''2024-01-10'' ''neo'' returning_user))) = 1"
  by (simp add: login_def returning_user_def initial_user_def Let_def or_zero_def)

subsection \<open>C6: a second login on the same day\<close>

text \<open>
  C6. When the account's last login is already today's date, a login leaves the streak and
  the balance as they are.
\<close>

theorem login_same_day:
  "lastLogin u = Some today \<Longrightarrow>
     streak (login today yest name u) = streak u
     \<and> balance (login today yest name u) = balance u"
  by (simp add: login_def)

theorem login_same_day_witness:
  "lastLogin returning_user = Some ''2024-01-10''
   \<and> streak (login ''2024-01-10'' ''2024-01-09'' ''neo'' returning_user) = 5
   \<and> balance (login ''2024-01-10'' ''2024-01-09'' ''neo'' returning_user) = 1000"
proof -
  have h: "lastLogin returning_user = Some ''2024-01-10''"
    by (simp add: returning_user_def)
  show ?thesis
    using h login_same_day [OF h, of "''2024-01-09''" "''neo''"]
    by (simp add: returning_user_def initial_user_def)
qed

subsection \<open>C7: realizing an investment\<close>

text \<open>
  C7. When no open position has the id, \<open>realizeInvestment\<close> returns the state it was
  given. When one has, the first such position \<open>p\<close> is the one paid out: the result is the
  input state with the balance set to \<open>round2 (balance + round2 (amount p * m))\<close> and with
  the positions of that id filtered out, so that none with the id remains; no other field
  changes.
\<close>

theorem realizeInvestment_cases:
  "(i \<notin> inv_id ` set (investments s) \<longrightarrow> realizeInvestment i m s = s)
   \<and> (i \<in> inv_id ` set (investments s) \<longrightarrow>
        (\<exists>p. find (\<lambda>x. inv_id x = i) (investments s) = Some p
           \<and> p \<in> set (investments s) \<and> inv_id p = i
           \<and> realizeInvestment i m s =
               s\<lparr>balance := round2 (balance s + round2 (inv_amount p * m)),
                 investments := filter (\<lambda>x. inv_id x \<noteq> i) (investments s)\<rparr>
           \<and> i \<notin> inv_id ` set (investments (realizeInvestment i m s))))"
proof (cases "find (\<lambda>x. inv_id x = i) (investments s)")
  case None
  then have "i \<notin> inv_id ` set (investments s)" by (simp add: find_inv_None)
  with None show ?thesis by (simp add: realizeInvestment_def)
next
  case (Some p)
  then have p: "p \<in> set (investments s)" "inv_id p = i" using find_inv_Some by blast+
  have "realizeInvestment i m s =
          s\<lparr>balance := round2 (balance s + round2 (inv_amount p * m)),
            investments := filter (\<lambda>x. inv_id x \<noteq> i) (investments s)\<rparr>"
    using Some by (simp add: realizeInvestment_def Let_def)
  moreover have "i \<notin> inv_id ` set (investments (realizeInvestment i m s))"
    using Some by (auto simp: realizeInvestment_def Let_def)
  ultimately show ?thesis using Some p by auto
qed

theorem realizeInvestment_cases_witness:
  "''zz'' \<notin> inv_id ` set (investments invested_user)
   \<and> realizeInvestment ''zz'' 2 invested_user = invested_user
   \<and> ''i1'' \<in> inv_id ` set (investments invested_user)
   \<and> balance (realizeInvestment ''i1'' (3 / 2) invested_user) = 2500
   \<and> investments (realizeInvestment ''i1'' (3 / 2) invested_user) =
        [\<lparr>inv_id = ''i2'', inv_amount = 300, symbol = ''INFY''\<rparr>]"
  using realizeInvestment_cases [of "''zz''" invested_user 2]
    realizeInvestment_cases [of "''i1''" invested_user "3 / 2"]
  by (simp add: invested_user_def invest_def initial_user_def round2_def math_round_def)

subsection \<open>C8: the habit streak advances once a day\<close>

text \<open>
  C8. When a click leaves every task done while the streak's \<open>lastDate\<close> is not today, the
  streak becomes: \<open>current + 1\<close> if \<open>lastDate\<close> was yesterday and 1 otherwise; \<open>best\<close> the
  maximum of the old \<open>best\<close> and the new \<open>current\<close>; \<open>lastDate\<close> today; \<open>history\<close> with today
  appended. Over any sequence of clicks on one day the streak advances at most once, and
  once \<open>lastDate\<close> is today no sequence of clicks changes the streak.
\<close>

theorem habit_streak_advance:
  "(allDone (toggleTask i st) \<and> lastDate (hstreak st) \<noteq> Some today \<longrightarrow>
      hstreak (toggle_step today yest st i) =
        \<lparr>current = (if lastDate (hstreak st) = Some yest then current (hstreak st) + 1 else 1),
         best = max (best (hstreak st))
                  (if lastDate (hstreak st) = Some yest then current (hstreak st) + 1 else 1),
         lastDate = Some today,
         history = history (hstreak st) @ [today]\<rparr>)
   \<and> fire_count today yest st ids \<le> 1
   \<and> (lastDate (hstreak st) = Some today \<longrightarrow>
        hstreak (foldl (toggle_step today yest) st ids) = hstreak st)"
proof -
  have "fire_count today yest st ids \<le> 1"
    using fire_count_bound [of today yest st ids] by (simp split: if_splits)
  then show ?thesis
    by (simp add: toggles_after_done toggle_step_def streak_effect_def fires_def Let_def
        hstreak_toggleTask max.commute)
qed

theorem habit_streak_advance_witness:
  "allDone (toggleTask 3 (foldl (toggle_step ''2024-01-10'' ''2024-01-09'') initial_habit [1, 2]))
   \<and> lastDate (hstreak (foldl (toggle_step ''2024-01-10'' ''2024-01-09'') initial_habit [1, 2]))
       \<noteq> Some ''2024-01-10''
   \<and> hstreak (foldl (toggle_step ''2024-01-10'' ''2024-01-09'') initial_habit [1, 2, 3]) =
       \<lparr>current = 1, best = 1, lastDate = Some ''2024-01-10'', history = [''2024-01-10'']\<rparr>
   \<and> fire_count ''2024-01-10'' ''2024-01-09'' initial_habit [1, 2, 3, 3, 3, 1, 1] = 1
   \<and> hstreak (foldl (toggle_step ''2024-01-10'' ''2024-01-09'')
         (foldl (toggle_step ''2024-01-10'' ''2024-01-09'') initial_habit [1, 2, 3])
         [3, 3, 1, 1]) =
       \<lparr>current = 1, best = 1, lastDate = Some ''2024-01-10'', history = [''2024-01-10'']\<rparr>"
  using habit_streak_advance [where today = "''2024-01-10''" and yest = "''2024-01-09''"
      and i = 3 and ids = "[3, 3, 1, 1]"
      and st = "foldl (toggle_step ''2024-01-10'' ''2024-01-09'') initial_habit [1, 2]"]
    habit_streak_advance [where today = "''2024-01-10''" and yest = "''2024-01-09''"
      and i = 3 and ids = "[1, 2, 3, 3, 3, 1, 1]" and st = initial_habit]
    habit_streak_advance [where today = "''2024-01-10''" and yest = "''2024-01-09''"
      and i = 3 and ids = "[3, 3, 1, 1]"
      and st = "foldl (toggle_step ''2024-01-10'' ''2024-01-09'') initial_habit [1, 2, 3]"]
  by (simp add: initial_habit_def toggle_step_def streak_effect_def toggleTask_def fires_def
      allDone_def Let_def)

subsection \<open>C10: what a same-day login changes\<close>

text \<open>
  C10, as the code has it. When the last login is today and the login dates are at most 30
  distinct dates with today among them (\<open>login_dates_shape\<close>: as every login leaves
  them), a login
  changes nothing but the username, which it overwrites with the given name; so it is a
  full no-op exactly when the given name is the stored one.
\<close>

theorem login_same_day_frame:
  assumes "lastLogin u = Some today" and "today \<in> set (loginDates u)"
    and "distinct (loginDates u)" and "length (loginDates u) \<le> 30"
  shows "login today yest name u = u\<lparr>username := Some name\<rparr>
    \<and> (login today yest name u = u \<longleftrightarrow> username u = Some name)"
proof -
  have "slice_last 30 (set_add (new_Set (loginDates u)) today) = loginDates u"
    using assms(2,3,4) by (simp add: new_Set_distinct set_add_def slice_last_short)
  then have eq: "login today yest name u = u\<lparr>username := Some name\<rparr>"
    using assms(1) by (simp add: login_def)
  have "u\<lparr>username := Some name\<rparr> = u \<longleftrightarrow> username u = Some name"
    by (cases u) auto
  with eq show ?thesis by simp
qed

theorem login_same_day_frame_witness:
  "lastLogin returning_user = Some ''2024-01-10''
   \<and> ''2024-01-10'' \<in> set (loginDates returning_user)
   \<and> distinct (loginDates returning_user)
   \<and> length (loginDates returning_user) \<le> 30
   \<and> login ''2024-01-10'' ''2024-01-09'' ''trinity'' returning_user =
        returning_user\<lparr>username := Some ''trinity''\<rparr>
   \<and> login ''2024-01-10'' ''2024-01-09'' ''trinity'' returning_user \<noteq> returning_user
   \<and> login ''2024-01-10'' ''2024-01-09'' ''neo'' returning_user = returning_user"
proof -
  have h: "lastLogin returning_user = Some ''2024-01-10''"
    "''2024-01-10'' \<in> set (loginDates returning_user)"
    "distinct (loginDates returning_user)"
    "length (loginDates returning_user) \<le> 30"
    by (simp_all add: returning_user_def)
  have n: "username returning_user = Some ''neo''"
    "username returning_user \<noteq> Some ''trinity''"
    by (simp_all add: returning_user_def)
  show ?thesis
    using h n login_same_day_frame [OF h, of "''2024-01-09''" "''trinity''"]
      login_same_day_frame [OF h, of "''2024-01-09''" "''neo''"]
    by blast
qed

text \<open>
  C10 as stated fails on an account whose last login is today while its login dates do not
  hold today: the login adds the date.
\<close>

theorem login_same_day_changes_dates:
  "lastLogin stale_user = Some ''2024-01-10''
   \<and> loginDates stale_user = []
   \<and> loginDates (login ''2024-01-10'' ''2024-01-09'' ''neo'' stale_user) = [''2024-01-10'']"
  by (simp add: login_def stale_user_def initial_user_def Let_def new_Set_def set_add_def
      slice_last_def)

end
